theory Spec2Isabelle
  imports Main "HOL-Library.Char_ord" "HOL-Library.List_Lexorder"
begin

section \<open>Smartcard comparison tool: the model of \<open>sc_compare.py\<close>\<close>

text \<open>
  A Python \<open>str\<close> is modelled as a \<open>string\<close> whose characters are code points below 256;
  \<open>of_char\<close> reads the code point. Strings are ordered as Python orders them: by the
  first differing code point, a proper prefix before its extensions. That is the order of
  \<open>HOL-Library.List_Lexorder\<close> over the character order of \<open>HOL-Library.Char_ord\<close>.
\<close>

subsection \<open>Python's built-ins on strings\<close>

definition isspace :: "char \<Rightarrow> bool" where
  \<comment> \<open>\<open>str.isspace\<close> on one code point below 256: TAB..CR, FS..US, SPACE, NEL, NBSP\<close>
  "isspace c = (let n = (of_char c :: nat) in
     (9 \<le> n \<and> n \<le> 13) \<or> (28 \<le> n \<and> n \<le> 32) \<or> n = 133 \<or> n = 160)"

definition strip :: "string \<Rightarrow> string" where
  \<comment> \<open>\<open>str.strip()\<close>: leading and trailing whitespace removed\<close>
  "strip s = rev (dropWhile isspace (rev (dropWhile isspace s)))"

definition lower_char :: "char \<Rightarrow> char" where
  \<comment> \<open>\<open>str.lower\<close> on one code point below 256: A..Z and the Latin-1 capitals move up by 32\<close>
  "lower_char c = (let n = (of_char c :: nat) in
     if (65 \<le> n \<and> n \<le> 90) \<or> (192 \<le> n \<and> n \<le> 214) \<or> (216 \<le> n \<and> n \<le> 222)
     then char_of (n + 32) else c)"

definition lower :: "string \<Rightarrow> string" where
  "lower s = map lower_char s"

fun contains :: "string \<Rightarrow> string \<Rightarrow> bool" where
  \<comment> \<open>\<open>sub in s\<close>: \<open>sub\<close> occurs in \<open>s\<close> as a contiguous run\<close>
  "contains sub [] = (sub = [])"
| "contains sub (c # cs) = (take (length sub) (c # cs) = sub \<or> contains sub cs)"

definition digit_char :: "nat \<Rightarrow> char" where
  "digit_char d = ''0123456789'' ! d"

fun digits :: "nat \<Rightarrow> string" where
  "digits n = (if n < 10 then [digit_char n] else digits (n div 10) @ [digit_char (n mod 10)])"

declare digits.simps [simp del]

definition str_int :: "int \<Rightarrow> string" where
  \<comment> \<open>\<open>str(i)\<close> of a Python int\<close>
  "str_int i = (if i < 0 then CHR ''-'' # digits (nat (- i)) else digits (nat i))"

definition decimal_value :: "string \<Rightarrow> nat" where
  \<comment> \<open>the number a string of decimal digits denotes, as \<open>int(s)\<close> reads it\<close>
  "decimal_value s = foldl (\<lambda>a c. 10 * a + (of_char c - 48)) 0 s"

fun str_lt :: "string \<Rightarrow> string \<Rightarrow> bool" where
  \<comment> \<open>\<open>s < t\<close> on Python strings, written out: the first differing code point decides, and a
      proper prefix comes first\<close>
  "str_lt [] [] = False"
| "str_lt [] (d # t) = True"
| "str_lt (c # s) [] = False"
| "str_lt (c # s) (d # t) = ((of_char c :: nat) < of_char d \<or> (c = d \<and> str_lt s t))"

subsection \<open>Floats\<close>

text \<open>
  A Python float is an IEEE double: a finite value \<open>m * 2 ^ e\<close> with integers \<open>m\<close> and
  \<open>e\<close>, an infinity, or a NaN. All arithmetic below is exact arithmetic on \<open>m\<close> and \<open>e\<close>.
  The two zeros are both \<open>Finite 0 e\<close>: \<open>_norm\<close> takes either for an integer and writes "0".
\<close>

datatype pyfloat = Finite int int | PosInf | NegInf | NaN

datatype error = OverflowError | ValueError | KeyError | ParseError

fun is_integer :: "pyfloat \<Rightarrow> bool" where
  \<comment> \<open>\<open>float.is_integer()\<close>\<close>
  "is_integer (Finite m e) = (if 0 \<le> e then True else m mod 2 ^ nat (- e) = 0)"
| "is_integer _ = False"

fun int_of_float :: "pyfloat \<Rightarrow> error + int" where
  \<comment> \<open>\<open>int(x)\<close>: truncation towards zero; raises on an infinity and on a NaN\<close>
  "int_of_float (Finite m e) =
     Inr (if 0 \<le> e then m * 2 ^ nat e else sgn m * (\<bar>m\<bar> div 2 ^ nat (- e)))"
| "int_of_float PosInf = Inl OverflowError"
| "int_of_float NegInf = Inl OverflowError"
| "int_of_float NaN = Inl ValueError"

text \<open>
  \<open>format(x, ".15g")\<close>. Python rounds the exact value to 15 significant digits (ties to
  even); with \<open>k\<close> the decimal exponent of the rounded value, it writes fixed-point
  notation when \<open>-4 \<le> k < 15\<close> and scientific notation otherwise, removes the trailing
  zeros of the fraction, and removes the point when no fraction is left. The exponent of
  the scientific notation has a sign and at least two digits.
\<close>

function first_pow10 :: "nat \<Rightarrow> nat \<Rightarrow> nat \<Rightarrow> nat" where
  \<comment> \<open>the least \<open>i \<ge> j\<close> with \<open>q \<le> p * 10 ^ i\<close>\<close>
  "first_pow10 p q j = (if p = 0 \<or> q \<le> p * 10 ^ j then j else first_pow10 p q (Suc j))"
  by pat_completeness auto
termination
proof (relation "measure (\<lambda>(p, q, j). q - j)")
  show "wf (measure (\<lambda>(p, q, j). q - j))" by simp
next
  fix p q j :: nat
  assume a: "\<not> (p = 0 \<or> q \<le> p * 10 ^ j)"
  have "j < 10 ^ j" by (induction j) auto
  also have "(10::nat) ^ j \<le> p * 10 ^ j" using a by simp
  finally have "j < q" using a by simp
  then show "((p, q, Suc j), (p, q, j)) \<in> measure (\<lambda>(p, q, j). q - j)" by simp
qed

declare first_pow10.simps [simp del]

definition decimal_exponent :: "nat \<Rightarrow> nat \<Rightarrow> int" where
  \<comment> \<open>for \<open>0 < p\<close> and \<open>0 < q\<close>: the \<open>k\<close> with \<open>10 ^ k \<le> p / q < 10 ^ (k + 1)\<close>\<close>
  "decimal_exponent p q =
     (if q \<le> p then int (length (digits (p div q))) - 1 else - int (first_pow10 p q 0))"

definition round_half_even :: "nat \<Rightarrow> nat \<Rightarrow> nat" where
  \<comment> \<open>\<open>n / d\<close> rounded to the nearest integer, ties to even\<close>
  "round_half_even n d = (let f = n div d; r = n mod d in
     if 2 * r < d then f else if d < 2 * r then f + 1 else if even f then f else f + 1)"

definition round_sig :: "nat \<Rightarrow> nat \<Rightarrow> nat \<Rightarrow> nat \<times> int" where
  \<comment> \<open>\<open>p / q\<close> rounded to \<open>prec\<close> significant digits: the digits as a number, and the
      decimal exponent of the rounded value\<close>
  "round_sig prec p q = (let k = decimal_exponent p q; s = int prec - 1 - k;
       r = (if 0 \<le> s then round_half_even (p * 10 ^ nat s) q
            else round_half_even p (q * 10 ^ nat (- s)))
     in if r = 10 ^ prec then (10 ^ (prec - 1), k + 1) else (r, k))"

definition rstrip_zeros :: "string \<Rightarrow> string" where
  "rstrip_zeros s = rev (dropWhile (\<lambda>c. c = CHR ''0'') (rev s))"

definition with_fraction :: "string \<Rightarrow> string \<Rightarrow> string" where
  \<comment> \<open>the integer part, then the point and the fraction when a fraction is left\<close>
  "with_fraction ip fr = (let fr' = rstrip_zeros fr in
     if fr' = [] then ip else ip @ CHR ''.'' # fr')"

definition exponent_str :: "int \<Rightarrow> string" where
  "exponent_str k = CHR ''e'' # (if k < 0 then CHR ''-'' else CHR ''+'') #
     (let ds = digits (nat \<bar>k\<bar>) in if length ds < 2 then CHR ''0'' # ds else ds)"

definition format_g_pos :: "nat \<Rightarrow> nat \<Rightarrow> nat \<Rightarrow> string" where
  \<comment> \<open>the \<open>g\<close> format with precision \<open>prec\<close> of \<open>p / q > 0\<close>\<close>
  "format_g_pos prec p q = (let (r, k) = round_sig prec p q; ds = digits r in
     if - 4 \<le> k \<and> k < int prec then
       (if 0 \<le> k then with_fraction (take (nat k + 1) ds) (drop (nat k + 1) ds)
        else with_fraction ''0'' (replicate (nat (- k - 1)) CHR ''0'' @ ds))
     else with_fraction (take 1 ds) (drop 1 ds) @ exponent_str k)"

fun format_15g :: "pyfloat \<Rightarrow> string" where
  \<comment> \<open>\<open>f"{x:.15g}"\<close>\<close>
  "format_15g PosInf = ''inf''"
| "format_15g NegInf = ''-inf''"
| "format_15g NaN = ''nan''"
| "format_15g (Finite m e) =
     (if m = 0 then ''0''
      else (if m < 0 then ''-'' else '''') @
        (if 0 \<le> e then format_g_pos 15 (nat \<bar>m\<bar> * 2 ^ nat e) 1
         else format_g_pos 15 (nat \<bar>m\<bar>) (2 ^ nat (- e))))"

subsection \<open>Cells and normalization\<close>

text \<open>
  A cell of a column, as \<open>_norm\<close> tells values apart: a null (\<open>None\<close>, \<open>pd.NA\<close>, \<open>NaT\<close>; a
  float NaN is null too), an \<open>int\<close> or \<open>np.integer\<close>, a \<open>float\<close>, or a value of any other
  type, which is carried by its text \<open>str(x)\<close> (a \<open>str\<close> is its own text). A \<open>bool\<close> passes
  the \<open>int\<close> test of \<open>_norm\<close> and comes out as \<open>str(x)\<close> there as well, so it is a \<open>Text\<close>
  here.
\<close>

datatype cell = Null | IntV int | FloatV pyfloat | Text string

fun isna :: "cell \<Rightarrow> bool" where
  \<comment> \<open>\<open>pd.isna(x)\<close>\<close>
  "isna Null = True"
| "isna (FloatV NaN) = True"
| "isna _ = False"

definition norm_value :: "cell \<Rightarrow> error + string option" where
  \<comment> \<open>\<open>_norm\<close>; \<open>Inl\<close> is an exception that leaves it\<close>
  "norm_value x =
     (if isna x then Inr None
      else case x of
        IntV i \<Rightarrow> Inr (Some (str_int i))
      | FloatV f \<Rightarrow>
          (if is_integer f
           then (case int_of_float f of Inl err \<Rightarrow> Inl err | Inr i \<Rightarrow> Inr (Some (str_int i)))
           else Inr (Some (format_15g f)))
      | Text s \<Rightarrow> Inr (Some (strip s))
      | Null \<Rightarrow> Inr None)"

fun series_map :: "('a \<Rightarrow> error + 'b) \<Rightarrow> 'a list \<Rightarrow> error + 'b list" where
  \<comment> \<open>\<open>series.map(f)\<close>: \<open>f\<close> on every value in order; the first exception leaves the loop\<close>
  "series_map f [] = Inr []"
| "series_map f (x # xs) =
     (case f x of Inl err \<Rightarrow> Inl err
      | Inr y \<Rightarrow> (case series_map f xs of Inl err \<Rightarrow> Inl err | Inr ys \<Rightarrow> Inr (y # ys)))"

fun dropna :: "'a option list \<Rightarrow> 'a list" where
  \<comment> \<open>\<open>series.dropna()\<close> on a series of strings and \<open>None\<close>\<close>
  "dropna [] = []"
| "dropna (None # ys) = dropna ys"
| "dropna (Some y # ys) = y # dropna ys"

definition normalize_smartcards :: "cell list \<Rightarrow> error + string list" where
  "normalize_smartcards series =
     (case series_map norm_value series of Inl err \<Rightarrow> Inl err | Inr ys \<Rightarrow> Inr (dropna ys))"

subsection \<open>Column guessing\<close>

fun scan_cols :: "string list \<Rightarrow> string option" where
  \<comment> \<open>the \<open>for\<close> loop of \<open>guess_sc_col\<close>: \<open>Some c\<close> when it returns \<open>c\<close>, \<open>None\<close> when it ends\<close>
  "scan_cols [] = None"
| "scan_cols (c # cs) = (if contains ''smartcard'' (lower c) then Some c else scan_cols cs)"

definition guess_sc_col :: "string list \<Rightarrow> string option" where
  "guess_sc_col cols = (case scan_cols cols of
       Some c \<Rightarrow> Some c
     | None \<Rightarrow> if 0 < length cols then Some (cols ! 0) else None)"

subsection \<open>The comparison\<close>

text \<open>
  Lines 156 to 180 of the script, on the two chosen columns. A Python \<open>set\<close> of strings is
  a finite \<open>string set\<close>; \<open>sorted\<close> of a set is the ascending list of its members, and
  \<open>len\<close> of a set is its cardinality.
\<close>

record comparison =
  common :: "string list"
  only_in_1 :: "string list"
  only_in_2 :: "string list"
  total1 :: nat
  total2 :: nat
  in_both :: nat
  total_unique :: nat

definition compare_sets :: "string set \<Rightarrow> string set \<Rightarrow> comparison" where
  \<comment> \<open>from \<open>sc1\<close> and \<open>sc2\<close> to the three lists and the four metrics\<close>
  "compare_sets sc1 sc2 =
     (let common = sorted_list_of_set (sc1 \<inter> sc2);
          only_in_1 = sorted_list_of_set (sc1 - sc2);
          only_in_2 = sorted_list_of_set (sc2 - sc1)
      in \<lparr>common = common, only_in_1 = only_in_1, only_in_2 = only_in_2,
          total1 = card sc1, total2 = card sc2,
          in_both = length common, total_unique = card (sc1 \<union> sc2)\<rparr>)"

definition compare_columns :: "cell list \<Rightarrow> cell list \<Rightarrow> error + comparison" where
  "compare_columns series1 series2 =
     (case normalize_smartcards series1 of Inl err \<Rightarrow> Inl err
      | Inr norm_sc1 \<Rightarrow>
     (case normalize_smartcards series2 of Inl err \<Rightarrow> Inl err
      | Inr norm_sc2 \<Rightarrow> Inr (compare_sets (set norm_sc1) (set norm_sc2))))"

subsection \<open>The script\<close>

text \<open>
  A table is its columns in order, each a name and its cells. An uploaded file is its name
  and what each of the two parsers makes of its bytes: a table, or the exception the parser
  raises. One run of the script reads the two uploads and what the widgets return: each
  select box the chosen column name, or \<open>None\<close> when it has no options, and the button
  whether it was pressed. The widgets exist, and are read, only when both tables are loaded.
  The index the script computes from \<open>guess_sc_col\<close> preselects an option of a select box
  and has no other use.
\<close>

type_synonym table = "(string \<times> cell list) list"

record upload =
  name :: string
  read_csv :: "error + table"
  read_excel :: "error + table"

record request =
  file1 :: "upload option"
  file2 :: "upload option"
  selectbox1 :: "string option"
  selectbox2 :: "string option"
  button :: bool

definition endswith :: "string \<Rightarrow> string \<Rightarrow> bool" where
  "endswith s suffix = (length suffix \<le> length s \<and> drop (length s - length suffix) s = suffix)"

definition load_table :: "upload option \<Rightarrow> error + table option" where
  "load_table uploaded_file = (case uploaded_file of
       None \<Rightarrow> Inr None
     | Some f \<Rightarrow>
         (case (if endswith (lower (name f)) ''.csv'' then read_csv f else read_excel f) of
            Inl err \<Rightarrow> Inl err
          | Inr t \<Rightarrow> Inr (Some t)))"

definition getitem :: "table \<Rightarrow> string \<Rightarrow> error + cell list" where
  \<comment> \<open>\<open>df[col]\<close>\<close>
  "getitem df col = (case map_of df col of None \<Rightarrow> Inl KeyError | Some series \<Rightarrow> Inr series)"

fun truthy :: "string option \<Rightarrow> bool" where
  \<comment> \<open>the truth value of a column name in a condition: \<open>None\<close> and the empty string are false\<close>
  "truthy None = False"
| "truthy (Some s) = (s \<noteq> [])"

text \<open>The variables the sidebar block (lines 74 to 121) leaves behind.\<close>

record sidebar_state =
  file1_label :: string
  file2_label :: string
  df1 :: "table option"
  df2 :: "table option"
  col1_name :: "string option"
  col2_name :: "string option"
  run_compare :: bool

definition sidebar :: "request \<Rightarrow> error + sidebar_state" where
  "sidebar req =
     (case load_table (file1 req) of Inl err \<Rightarrow> Inl err
      | Inr d1 \<Rightarrow>
     (case load_table (file2 req) of Inl err \<Rightarrow> Inl err
      | Inr d2 \<Rightarrow>
        (let both = (d1 \<noteq> None \<and> d2 \<noteq> None) in
         Inr \<lparr>file1_label = (case file1 req of Some f \<Rightarrow> name f | None \<Rightarrow> ''File 1''),
              file2_label = (case file2 req of Some f \<Rightarrow> name f | None \<Rightarrow> ''File 2''),
              df1 = d1, df2 = d2,
              col1_name = (if both then selectbox1 req else None),
              col2_name = (if both then selectbox2 req else None),
              run_compare = (if both then button req else False)\<rparr>)))"

datatype outcome = Idle | Warning | Compared comparison | Raised error

definition comparison_logic :: "sidebar_state \<Rightarrow> outcome" where
  \<comment> \<open>lines 154 to 233: the comparison, the warning, or neither\<close>
  "comparison_logic st =
     (if df1 st \<noteq> None \<and> df2 st \<noteq> None \<and> truthy (col1_name st) \<and> truthy (col2_name st)
         \<and> run_compare st
      then (case getitem (the (df1 st)) (the (col1_name st)) of Inl err \<Rightarrow> Raised err
            | Inr series1 \<Rightarrow>
           (case getitem (the (df2 st)) (the (col2_name st)) of Inl err \<Rightarrow> Raised err
            | Inr series2 \<Rightarrow>
           (case compare_columns series1 series2 of Inl err \<Rightarrow> Raised err
            | Inr r \<Rightarrow> Compared r)))
      else if run_compare st then Warning
      else Idle)"

definition script :: "request \<Rightarrow> outcome" where
  "script req = (case sidebar req of Inl err \<Rightarrow> Raised err | Inr st \<Rightarrow> comparison_logic st)"

section \<open>Properties\<close>

subsection \<open>Evaluation\<close>

lemma replicate_numeral: "replicate (numeral v) x = x # replicate (numeral v - 1) x"
  by (simp add: numeral_eq_Suc)

lemmas float_eval = format_g_pos_def round_sig_def decimal_exponent_def first_pow10.simps
  round_half_even_def digits.simps digit_char_def with_fraction_def rstrip_zeros_def
  exponent_str_def Let_def str_int_def replicate_numeral

lemmas string_eval = isspace_def strip_def lower_def lower_char_def char_of_def bit_Suc_0_iff

lemmas normalize_eval = normalize_smartcards_def norm_value_def

subsection \<open>Strings, decimal strings and decimal exponents\<close>

lemma str_lt_iff_less: "str_lt s t \<longleftrightarrow> s < t"
  by (induction s t rule: str_lt.induct) (simp_all add: less_char_def)

lemma strip_whitespace:
  assumes "\<forall>c\<in>set s. isspace c"
  shows "strip s = []"
proof -
  have d: "dropWhile isspace s = []" using assms by simp
  show ?thesis unfolding strip_def d by simp
qed



lemma of_char_digit_char: "d < 10 \<Longrightarrow> (of_char (digit_char d) :: nat) = 48 + d"
proof -
  assume "d < 10"
  then have "d = 0 \<or> d = 1 \<or> d = 2 \<or> d = 3 \<or> d = 4 \<or> d = 5 \<or> d = 6
    \<or> d = 7 \<or> d = 8 \<or> d = 9"
    by presburger
  then show ?thesis by (auto simp: digit_char_def)
qed

lemma decimal_value_digits: "decimal_value (digits n) = n"
proof (induction n rule: digits.induct)
  case (1 n)
  show ?case
  proof (cases "n < 10")
    case True
    then show ?thesis
      by (subst digits.simps) (simp add: decimal_value_def of_char_digit_char)
  next
    case False
    with 1 have "decimal_value (digits (n div 10)) = n div 10" by simp
    moreover have "n mod 10 < 10" by simp
    ultimately show ?thesis using False
      by (subst digits.simps) (simp add: decimal_value_def of_char_digit_char)
  qed
qed

lemma digits_length: "0 < n \<Longrightarrow> 10 ^ (length (digits n) - 1) \<le> n \<and> n < 10 ^ length (digits n)"
proof (induction n rule: digits.induct)
  case (1 n)
  show ?case
  proof (cases "n < 10")
    case True
    with 1(2) show ?thesis by (subst (1 2) digits.simps) simp
  next
    case False
    then have pos: "0 < n div 10" by simp
    from 1(1) [OF False pos]
    have ih: "10 ^ (length (digits (n div 10)) - 1) \<le> n div 10"
      "n div 10 < 10 ^ length (digits (n div 10))" by simp_all
    have len: "0 < length (digits (n div 10))"
      by (subst digits.simps) simp
    have d: "digits n = digits (n div 10) @ [digit_char (n mod 10)]"
      using False by (subst digits.simps) simp
    from ih(1) have "10 * 10 ^ (length (digits (n div 10)) - 1) \<le> 10 * (n div 10)" by simp
    also have "\<dots> \<le> n" by simp
    finally have a: "10 ^ length (digits (n div 10)) \<le> n"
      using len by (cases "length (digits (n div 10))") simp_all
    from ih(2) have "n div 10 + 1 \<le> 10 ^ length (digits (n div 10))" by simp
    then have "10 * (n div 10 + 1) \<le> 10 * 10 ^ length (digits (n div 10))"
      by (rule mult_le_mono2)
    moreover have "n < 10 * (n div 10 + 1)" by (simp add: algebra_simps)
    ultimately have b: "n < 10 ^ (length (digits (n div 10)) + 1)" by simp
    from a b d show ?thesis by simp
  qed
qed

lemma first_pow10_least:
  "0 < p \<Longrightarrow> q \<le> p * 10 ^ first_pow10 p q j \<and> j \<le> first_pow10 p q j \<and>
     (\<forall>i. j \<le> i \<and> i < first_pow10 p q j \<longrightarrow> p * 10 ^ i < q)"
proof (induction p q j rule: first_pow10.induct)
  case (1 p q j)
  show ?case
  proof (cases "q \<le> p * 10 ^ j")
    case True
    then show ?thesis by (subst (1 2 3) first_pow10.simps) simp
  next
    case False
    with 1(2) have c: "\<not> (p = 0 \<or> q \<le> p * 10 ^ j)" by simp
    from 1(1) [OF c 1(2)] have ih: "q \<le> p * 10 ^ first_pow10 p q (Suc j)"
      "Suc j \<le> first_pow10 p q (Suc j)"
      "\<forall>i. Suc j \<le> i \<and> i < first_pow10 p q (Suc j) \<longrightarrow> p * 10 ^ i < q" by simp_all
    have e: "first_pow10 p q j = first_pow10 p q (Suc j)"
      using c by (subst first_pow10.simps) simp
    have "p * 10 ^ i < q" if "j \<le> i" "i < first_pow10 p q (Suc j)" for i
    proof (cases "i = j")
      case True
      with False show ?thesis by simp
    next
      case False
      with that ih(3) show ?thesis by simp
    qed
    with ih e show ?thesis by simp
  qed
qed

lemma decimal_exponent_bounds:
  assumes "0 < p" "0 < q"
  shows "(0 \<le> decimal_exponent p q \<longrightarrow>
           q * 10 ^ nat (decimal_exponent p q) \<le> p \<and> p < q * 10 ^ (nat (decimal_exponent p q) + 1)) \<and>
         (decimal_exponent p q < 0 \<longrightarrow>
           q \<le> p * 10 ^ nat (- decimal_exponent p q) \<and> p * 10 ^ (nat (- decimal_exponent p q) - 1) < q)"
proof (cases "q \<le> p")
  case True
  define n where "n = p div q"
  have npos: "0 < n" using True assms by (simp add: n_def div_greater_zero_iff)
  from digits_length [OF npos]
  have b: "10 ^ (length (digits n) - 1) \<le> n" "n < 10 ^ length (digits n)" by simp_all
  have len: "0 < length (digits n)" by (subst digits.simps) simp
  have k: "decimal_exponent p q = int (length (digits n)) - 1"
    using True by (simp add: decimal_exponent_def n_def)
  then have nk: "nat (decimal_exponent p q) = length (digits n) - 1" using len by simp
  have "q * 10 ^ (length (digits n) - 1) \<le> q * n" using b(1) by simp
  also have "\<dots> \<le> p" by (simp add: n_def)
  finally have lo: "q * 10 ^ (length (digits n) - 1) \<le> p" .
  have "p < q * (n + 1)" using assms(2) unfolding n_def
    by (metis Suc_eq_plus1 dividend_less_times_div mult.commute mult_Suc_right add.commute)
  also have "\<dots> \<le> q * 10 ^ length (digits n)"
  proof (rule mult_le_mono2)
    show "n + 1 \<le> 10 ^ length (digits n)" using b(2) by simp
  qed
  finally have hi: "p < q * 10 ^ length (digits n)" .
  from lo hi nk k len show ?thesis by simp
next
  case False
  from first_pow10_least [OF assms(1), of q 0]
  have f: "q \<le> p * 10 ^ first_pow10 p q 0"
    "\<forall>i. i < first_pow10 p q 0 \<longrightarrow> p * 10 ^ i < q" by simp_all
  have k: "decimal_exponent p q = - int (first_pow10 p q 0)"
    using False by (simp add: decimal_exponent_def)
  have pos: "0 < first_pow10 p q 0"
  proof (rule ccontr)
    assume "\<not> 0 < first_pow10 p q 0"
    with f(1) False show False by simp
  qed
  then have "p * 10 ^ (first_pow10 p q 0 - 1) < q" using f(2) by simp
  with f(1) k pos show ?thesis by simp
qed

lemma format_15g_examples:
  "format_15g (Finite 8687443681197687 (- 46)) = ''123.456''"
  "format_15g (Finite 2000000000000001 (- 1)) = ''1e+15''"
  "format_15g (Finite 200000000000001 (- 1)) = ''100000000000000''"
  "format_15g (Finite 200000000000003 (- 1)) = ''100000000000002''"
  "format_15g (Finite 7378697629483821 (- 66)) = ''0.0001''"
  "format_15g (Finite 2833419889721787 (- 74)) = ''1.5e-07''"
  "format_15g (Finite (- 5) (- 1)) = ''-2.5''"
  "format_15g (Finite 1351079888211149 (- 52)) = ''0.3''"
  "format_15g (Finite 4938271560493827 (- 2)) = ''1.23456789012346e+15''"
  by (simp_all add: float_eval)

subsection \<open>Normalization\<close>

lemma is_integer_Finite: "is_integer f \<Longrightarrow> \<exists>m e. f = Finite m e"
  by (cases f) simp_all

lemma norm_value_returns: "\<exists>y. norm_value x = Inr y"
proof (cases x)
  case (FloatV f)
  then show ?thesis by (cases f) (simp_all add: norm_value_def)
qed (simp_all add: norm_value_def)

lemma series_map_norm_returns: "\<exists>ys. series_map norm_value xs = Inr ys"
proof (induction xs)
  case Nil
  show ?case by simp
next
  case (Cons x xs)
  obtain y where y: "norm_value x = Inr y" using norm_value_returns by blast
  from Cons obtain ys where "series_map norm_value xs = Inr ys" by blast
  with y show ?case by simp
qed

lemma normalize_smartcards_returns: "\<exists>ys. normalize_smartcards xs = Inr ys"
  using series_map_norm_returns [of xs] by (auto simp: normalize_smartcards_def)

lemma series_map_append:
  "series_map f xs = Inr us \<Longrightarrow> series_map f ys = Inr vs \<Longrightarrow> series_map f (xs @ ys) = Inr (us @ vs)"
  by (induction xs arbitrary: us) (auto split: sum.splits)

lemma dropna_append: "dropna (us @ vs) = dropna us @ dropna vs"
  by (induction us rule: dropna.induct) simp_all

lemma normalize_smartcards_append:
  assumes a: "normalize_smartcards xs = Inr us" and b: "normalize_smartcards ys = Inr vs"
  shows "normalize_smartcards (xs @ ys) = Inr (us @ vs)"
proof -
  from a obtain us' where us': "series_map norm_value xs = Inr us'" "us = dropna us'"
    by (auto simp: normalize_smartcards_def split: sum.splits)
  from b obtain vs' where vs': "series_map norm_value ys = Inr vs'" "vs = dropna vs'"
    by (auto simp: normalize_smartcards_def split: sum.splits)
  from series_map_append [OF us'(1) vs'(1)] us'(2) vs'(2) show ?thesis
    by (simp add: normalize_smartcards_def dropna_append)
qed

lemma normalize_smartcards_Cons:
  "norm_value x = Inr y \<Longrightarrow> normalize_smartcards xs = Inr us \<Longrightarrow>
   normalize_smartcards (x # xs) = Inr (case y of None \<Rightarrow> us | Some s \<Rightarrow> s # us)"
  by (auto simp: normalize_smartcards_def split: sum.splits option.splits)

lemma normalize_all_null: "\<forall>x\<in>set xs. isna x \<Longrightarrow> normalize_smartcards xs = Inr []"
proof (induction xs)
  case Nil
  show ?case by (simp add: normalize_smartcards_def)
next
  case (Cons x xs)
  then have "norm_value x = Inr None" "normalize_smartcards xs = Inr []"
    by (simp_all add: norm_value_def)
  from normalize_smartcards_Cons [OF this] show ?case by simp
qed

lemma norm_value_int_float:
  "0 \<le> e \<Longrightarrow> norm_value (FloatV (Finite m e)) = Inr (Some (str_int (m * 2 ^ nat e)))"
  by (simp add: norm_value_def)

lemma norm_value_int_float_neg:
  assumes "e < 0"
  shows "norm_value (FloatV (Finite (n * 2 ^ nat (- e)) e)) = Inr (Some (str_int n))"
proof -
  have "\<bar>n * 2 ^ nat (- e)\<bar> div 2 ^ nat (- e) = \<bar>n\<bar>"
    by (simp add: abs_mult)
  moreover have "sgn (n * 2 ^ nat (- e)) = sgn n"
    by (simp add: sgn_mult)
  ultimately have "int_of_float (Finite (n * 2 ^ nat (- e)) e) = Inr n"
    using assms by (simp add: mult_sgn_abs)
  then show ?thesis using assms by (simp add: norm_value_def)
qed

text \<open>
  C3: normalization follows the per-value rules in their priority order: a null is dropped,
  an integer becomes its decimal string, a float with an integer value becomes the decimal
  string of that integer (so integer 123 and float 123.0 both give "123"), any other value
  becomes its stripped text; the output keeps the order of the input and keeps duplicates.
\<close>

theorem normalize_smartcards_rules:
  "normalize_smartcards [] = Inr [] \<and>
   (\<exists>ys. normalize_smartcards xs = Inr ys \<and>
      (isna x \<longrightarrow> normalize_smartcards (x # xs) = Inr ys) \<and>
      normalize_smartcards (IntV i # xs) = Inr (str_int i # ys) \<and>
      (0 \<le> e \<longrightarrow> normalize_smartcards (FloatV (Finite m e) # xs)
         = Inr (str_int (m * 2 ^ nat e) # ys)) \<and>
      (e < 0 \<longrightarrow> normalize_smartcards (FloatV (Finite (n * 2 ^ nat (- e)) e) # xs)
         = Inr (str_int n # ys)) \<and>
      normalize_smartcards (Text s # xs) = Inr (strip s # ys) \<and>
      (\<forall>xs' ys'. normalize_smartcards xs' = Inr ys' \<longrightarrow>
         normalize_smartcards (xs @ xs') = Inr (ys @ ys'))) \<and>
   normalize_smartcards [IntV 123] = Inr [''123''] \<and>
   normalize_smartcards [FloatV (Finite 123 0)] = Inr [''123''] \<and>
   normalize_smartcards [IntV 7, Null, IntV 5, IntV 7] = Inr [''7'', ''5'', ''7'']"
proof -
  obtain ys where ys: "normalize_smartcards xs = Inr ys"
    using normalize_smartcards_returns by blast
  have 1: "normalize_smartcards (x # xs) = Inr ys" if "isna x"
  proof -
    from that have "norm_value x = Inr None" by (simp add: norm_value_def)
    from normalize_smartcards_Cons [OF this ys] show ?thesis by simp
  qed
  have "norm_value (IntV i) = Inr (Some (str_int i))" by (simp add: norm_value_def)
  from normalize_smartcards_Cons [OF this ys]
  have 2: "normalize_smartcards (IntV i # xs) = Inr (str_int i # ys)" by simp
  have 3: "normalize_smartcards (FloatV (Finite m e) # xs) = Inr (str_int (m * 2 ^ nat e) # ys)"
    if "0 \<le> e"
    using normalize_smartcards_Cons [OF norm_value_int_float [OF that] ys] by simp
  have 4: "normalize_smartcards (FloatV (Finite (n * 2 ^ nat (- e)) e) # xs) = Inr (str_int n # ys)"
    if "e < 0"
    using normalize_smartcards_Cons [OF norm_value_int_float_neg [OF that] ys] by simp
  have "norm_value (Text s) = Inr (Some (strip s))" by (simp add: norm_value_def)
  from normalize_smartcards_Cons [OF this ys]
  have 5: "normalize_smartcards (Text s # xs) = Inr (strip s # ys)" by simp
  have 6: "normalize_smartcards (xs @ xs') = Inr (ys @ ys')"
    if "normalize_smartcards xs' = Inr ys'" for xs' ys'
    using normalize_smartcards_append [OF ys that] .
  have 7: "normalize_smartcards [] = Inr []" by (simp add: normalize_eval)
  have 8: "normalize_smartcards [IntV 123] = Inr [''123'']"
    by (simp add: normalize_eval float_eval)
  have 9: "normalize_smartcards [FloatV (Finite 123 0)] = Inr [''123'']"
    by (simp add: normalize_eval float_eval)
  have 10: "normalize_smartcards [IntV 7, Null, IntV 5, IntV 7] = Inr [''7'', ''5'', ''7'']"
    by (simp add: normalize_eval float_eval)
  from ys 1 2 3 4 5 6 7 8 9 10 show ?thesis by blast
qed

theorem normalize_smartcards_rules_witness:
  "normalize_smartcards [FloatV NaN, Text '' 103 ''] = Inr [''103''] \<and>
   normalize_smartcards [FloatV (Finite 816 (- 3)), Text '' 103 ''] = Inr [''102'', ''103''] \<and>
   normalize_smartcards [FloatV (Finite 51 1), Text '' 103 ''] = Inr [''102'', ''103''] \<and>
   normalize_smartcards [Text '' 103 '', IntV 4] = Inr [''103'', ''4'']"
proof -
  have t: "normalize_smartcards [IntV 4] = Inr [''4'']"
    by (simp add: normalize_eval float_eval)
  from normalize_smartcards_rules [of "[Text '' 103 '']" "FloatV NaN" 0 1 51 102 "[]"]
  obtain ys where ys: "normalize_smartcards [Text '' 103 ''] = Inr ys"
     "isna (FloatV NaN) \<longrightarrow> normalize_smartcards [FloatV NaN, Text '' 103 ''] = Inr ys"
     "(0::int) \<le> 1 \<longrightarrow> normalize_smartcards [FloatV (Finite 51 1), Text '' 103 '']
         = Inr (str_int (51 * 2 ^ nat 1) # ys)"
     "\<forall>xs' ys'. normalize_smartcards xs' = Inr ys' \<longrightarrow>
         normalize_smartcards ([Text '' 103 ''] @ xs') = Inr (ys @ ys')"
    by auto
  from normalize_smartcards_rules [of "[Text '' 103 '']" "FloatV NaN" 0 "- 3" 51 102 "[]"]
  obtain zs where zs: "normalize_smartcards [Text '' 103 ''] = Inr zs"
     "(- 3::int) < 0 \<longrightarrow> normalize_smartcards [FloatV (Finite (102 * 2 ^ nat (- (- 3))) (- 3)), Text '' 103 '']
         = Inr (str_int 102 # zs)"
    by auto
  have v: "normalize_smartcards [Text '' 103 ''] = Inr [''103'']"
    by (simp add: normalize_eval string_eval)
  from v ys(1) have y: "ys = [''103'']" by simp
  from v zs(1) have z: "zs = [''103'']" by simp
  have a: "normalize_smartcards [FloatV NaN, Text '' 103 ''] = Inr [''103'']"
    using ys(2) y by simp
  have b: "normalize_smartcards [FloatV (Finite 51 1), Text '' 103 ''] = Inr [''102'', ''103'']"
    using ys(3) y by (simp add: float_eval)
  have c: "normalize_smartcards [FloatV (Finite 816 (- 3)), Text '' 103 ''] = Inr [''102'', ''103'']"
    using zs(2) z by (simp add: float_eval)
  have d: "normalize_smartcards [Text '' 103 '', IntV 4] = Inr [''103'', ''4'']"
    using ys(4) t y by auto
  from a b c d show ?thesis by blast
qed

lemma float_123_456:
  "normalize_smartcards [FloatV (Finite 8687443681197687 (- 46))] = Inr [''123.456'']"
  by (simp add: normalize_eval float_eval)

text \<open>
  C4 fails on the code: a float with a fractional part and a magnitude below 0.0001 comes
  out in scientific notation. The double nearest to 0.00001 is
  \<open>5902958103587057 * 2 ^ -69\<close>, and it normalizes to "1e-05".
\<close>

theorem small_float_scientific:
  "\<not> is_integer (Finite 5902958103587057 (- 69)) \<and>
   normalize_smartcards [FloatV (Finite 5902958103587057 (- 69))] = Inr [''1e-05'']"
  by (simp add: normalize_eval float_eval)

subsection \<open>The comparison\<close>

lemma compare_columns_returns:
  "\<exists>n1 n2. normalize_smartcards c1 = Inr n1 \<and> normalize_smartcards c2 = Inr n2 \<and>
     compare_columns c1 c2 = Inr (compare_sets (set n1) (set n2))"
  using normalize_smartcards_returns [of c1] normalize_smartcards_returns [of c2]
  by (auto simp: compare_columns_def)

lemma compare_sets_lists:
  assumes "finite A" "finite B"
  shows "set (common (compare_sets A B)) = A \<inter> B"
    and "set (only_in_1 (compare_sets A B)) = A - B"
    and "set (only_in_2 (compare_sets A B)) = B - A"
  using assms by (simp_all add: compare_sets_def Let_def)

lemma compare_sets_counts:
  assumes "finite A" "finite B"
  shows "total1 (compare_sets A B) = card A"
    and "total2 (compare_sets A B) = card B"
    and "in_both (compare_sets A B) = card (A \<inter> B)"
    and "total_unique (compare_sets A B) = card (A \<union> B)"
  using assms by (simp_all add: compare_sets_def Let_def)

lemma compare_sets_sorted:
  assumes "finite A" "finite B"
  shows "sorted_wrt str_lt (common (compare_sets A B))"
    and "sorted_wrt str_lt (only_in_1 (compare_sets A B))"
    and "sorted_wrt str_lt (only_in_2 (compare_sets A B))"
proof -
  have eq: "str_lt = (<)" by (intro ext) (simp add: str_lt_iff_less)
  show "sorted_wrt str_lt (common (compare_sets A B))"
    and "sorted_wrt str_lt (only_in_1 (compare_sets A B))"
    and "sorted_wrt str_lt (only_in_2 (compare_sets A B))"
    unfolding eq by (simp_all add: compare_sets_def Let_def)
qed

lemma compare_sets_empty:
  "compare_sets {} {} = \<lparr>common = [], only_in_1 = [], only_in_2 = [],
     total1 = 0, total2 = 0, in_both = 0, total_unique = 0\<rparr>"
  by (simp add: compare_sets_def)

text \<open>
  C1: for every two chosen columns, the comparison returns, and its three lists common,
  only-in-1 and only-in-2 are pairwise disjoint and together hold exactly the members of
  the two Identifier Sets.
\<close>

theorem result_lists_partition:
  "\<exists>n1 n2 r. normalize_smartcards c1 = Inr n1 \<and> normalize_smartcards c2 = Inr n2 \<and>
     compare_columns c1 c2 = Inr r \<and>
     set (common r) \<union> set (only_in_1 r) \<union> set (only_in_2 r) = set n1 \<union> set n2 \<and>
     set (common r) \<inter> set (only_in_1 r) = {} \<and>
     set (common r) \<inter> set (only_in_2 r) = {} \<and>
     set (only_in_1 r) \<inter> set (only_in_2 r) = {}"
proof -
  obtain n1 n2 where n: "normalize_smartcards c1 = Inr n1" "normalize_smartcards c2 = Inr n2"
    "compare_columns c1 c2 = Inr (compare_sets (set n1) (set n2))"
    using compare_columns_returns by blast
  have "set (common (compare_sets (set n1) (set n2))) \<union> set (only_in_1 (compare_sets (set n1) (set n2)))
        \<union> set (only_in_2 (compare_sets (set n1) (set n2))) = set n1 \<union> set n2"
    by (auto simp: compare_sets_lists)
  moreover have "set (common (compare_sets (set n1) (set n2))) \<inter> set (only_in_1 (compare_sets (set n1) (set n2))) = {}"
    "set (common (compare_sets (set n1) (set n2))) \<inter> set (only_in_2 (compare_sets (set n1) (set n2))) = {}"
    "set (only_in_1 (compare_sets (set n1) (set n2))) \<inter> set (only_in_2 (compare_sets (set n1) (set n2))) = {}"
    by (auto simp: compare_sets_lists)
  ultimately show ?thesis using n by blast
qed

text \<open>
  C2: the four counts are the cardinalities of the first Identifier Set, of the second, of
  their intersection and of their union, and the union count is the sum of the two distinct
  counts less the common count.
\<close>

theorem summary_counts:
  "\<exists>n1 n2 r. normalize_smartcards c1 = Inr n1 \<and> normalize_smartcards c2 = Inr n2 \<and>
     compare_columns c1 c2 = Inr r \<and>
     total1 r = card (set n1) \<and> total2 r = card (set n2) \<and>
     in_both r = card (set n1 \<inter> set n2) \<and>
     total_unique r = card (set n1 \<union> set n2) \<and>
     int (total_unique r) = int (total1 r) + int (total2 r) - int (in_both r)"
proof -
  obtain n1 n2 where n: "normalize_smartcards c1 = Inr n1" "normalize_smartcards c2 = Inr n2"
    "compare_columns c1 c2 = Inr (compare_sets (set n1) (set n2))"
    using compare_columns_returns by blast
  have "card (set n1 \<union> set n2) + card (set n1 \<inter> set n2) = card (set n1) + card (set n2)"
    by (rule card_Un_Int [symmetric]) simp_all
  then have "int (card (set n1 \<union> set n2)) = int (card (set n1)) + int (card (set n2)) - int (card (set n1 \<inter> set n2))"
    by linarith
  then show ?thesis using n by (auto simp: compare_sets_counts)
qed

text \<open>
  C5: the three lists are in ascending order of their strings under the code-point
  comparison \<open>str_lt\<close>; the identifiers "10", "2", "1" come out as "1", "10", "2".
\<close>

theorem result_lists_sorted:
  "(\<exists>r. compare_columns c1 c2 = Inr r \<and> sorted_wrt str_lt (common r) \<and>
        sorted_wrt str_lt (only_in_1 r) \<and> sorted_wrt str_lt (only_in_2 r)) \<and>
   sorted_list_of_set (set [''10'', ''2'', ''1'']) = [''1'', ''10'', ''2''] \<and>
   (\<exists>r. compare_columns [Text ''10'', Text ''2'', Text ''1''] [] = Inr r \<and>
        only_in_1 r = [''1'', ''10'', ''2''])"
proof -
  obtain n1 n2 where n: "compare_columns c1 c2 = Inr (compare_sets (set n1) (set n2))"
    using compare_columns_returns by blast
  have a: "\<exists>r. compare_columns c1 c2 = Inr r \<and> sorted_wrt str_lt (common r) \<and>
        sorted_wrt str_lt (only_in_1 r) \<and> sorted_wrt str_lt (only_in_2 r)"
    using n by (simp add: compare_sets_sorted)
  have b: "sorted_list_of_set (set [''10'', ''2'', ''1'']) = [''1'', ''10'', ''2'']"
    by code_simp
  have c: "normalize_smartcards [Text ''10'', Text ''2'', Text ''1''] = Inr [''10'', ''2'', ''1'']"
    by (simp add: normalize_eval string_eval)
  have d: "normalize_smartcards [] = Inr []"
    by (simp add: normalize_eval)
  have "only_in_1 (compare_sets (set [''10'', ''2'', ''1'']) (set [])) = [''1'', ''10'', ''2'']"
    by code_simp
  then have "\<exists>r. compare_columns [Text ''10'', Text ''2'', Text ''1''] [] = Inr r \<and>
        only_in_1 r = [''1'', ''10'', ''2'']"
    by (simp only: compare_columns_def c d sum.case) blast
  with a b show ?thesis by blast
qed

text \<open>
  C8: a chosen column that is empty or holds only nulls is no error. It gives an empty
  Identifier Set, so the lists and the count that draw on it are empty and zero; when both
  columns are such, all three lists are empty and all four counts are zero.
\<close>

theorem empty_columns:
  "((\<forall>x\<in>set c1. isna x) \<longrightarrow>
      normalize_smartcards c1 = Inr [] \<and>
      (\<exists>r. compare_columns c1 c2 = Inr r \<and> total1 r = 0 \<and> common r = [] \<and> only_in_1 r = [])) \<and>
   ((\<forall>x\<in>set c2. isna x) \<longrightarrow>
      normalize_smartcards c2 = Inr [] \<and>
      (\<exists>r. compare_columns c1 c2 = Inr r \<and> total2 r = 0 \<and> common r = [] \<and> only_in_2 r = [])) \<and>
   ((\<forall>x\<in>set c1. isna x) \<and> (\<forall>x\<in>set c2. isna x) \<longrightarrow>
      compare_columns c1 c2 = Inr \<lparr>common = [], only_in_1 = [], only_in_2 = [],
        total1 = 0, total2 = 0, in_both = 0, total_unique = 0\<rparr>)"
proof -
  obtain n1 n2 where n: "normalize_smartcards c1 = Inr n1" "normalize_smartcards c2 = Inr n2"
    "compare_columns c1 c2 = Inr (compare_sets (set n1) (set n2))"
    using compare_columns_returns by blast
  have 1: "normalize_smartcards c1 = Inr [] \<and>
      (\<exists>r. compare_columns c1 c2 = Inr r \<and> total1 r = 0 \<and> common r = [] \<and> only_in_1 r = [])"
    if "\<forall>x\<in>set c1. isna x"
    using normalize_all_null [OF that] n by (simp add: compare_sets_def)
  have 2: "normalize_smartcards c2 = Inr [] \<and>
      (\<exists>r. compare_columns c1 c2 = Inr r \<and> total2 r = 0 \<and> common r = [] \<and> only_in_2 r = [])"
    if "\<forall>x\<in>set c2. isna x"
    using normalize_all_null [OF that] n by (simp add: compare_sets_def)
  have 3: "compare_columns c1 c2 = Inr \<lparr>common = [], only_in_1 = [], only_in_2 = [],
        total1 = 0, total2 = 0, in_both = 0, total_unique = 0\<rparr>"
    if "\<forall>x\<in>set c1. isna x" "\<forall>x\<in>set c2. isna x"
    using normalize_all_null [OF that(1)] normalize_all_null [OF that(2)]
    by (simp add: compare_columns_def compare_sets_empty)
  from 1 2 3 show ?thesis by blast
qed

theorem empty_columns_witness:
  "isna Null \<and> isna (FloatV NaN) \<and>
   normalize_smartcards [Null, FloatV NaN] = Inr [] \<and>
   compare_columns [Null, FloatV NaN] [] = Inr \<lparr>common = [], only_in_1 = [], only_in_2 = [],
        total1 = 0, total2 = 0, in_both = 0, total_unique = 0\<rparr>"
proof -
  have h1: "\<forall>x\<in>set [Null, FloatV NaN]. isna x" by simp
  have h2: "\<forall>x\<in>set ([] :: cell list). isna x" by simp
  from empty_columns [of "[Null, FloatV NaN]" "[]"] h1 h2
  have "normalize_smartcards [Null, FloatV NaN] = Inr [] \<and>
    compare_columns [Null, FloatV NaN] [] = Inr \<lparr>common = [], only_in_1 = [], only_in_2 = [],
        total1 = 0, total2 = 0, in_both = 0, total_unique = 0\<rparr>"
    by blast
  then show ?thesis by simp
qed

text \<open>
  C9: a text value made of whitespace only (or empty) normalizes to the empty string, which
  is kept in the output sequence, becomes a member of the Identifier Set and appears in a
  result list.
\<close>

theorem whitespace_text_retained:
  "(\<forall>c\<in>set s. isspace c) \<longrightarrow>
     norm_value (Text s) = Inr (Some '''') \<and>
     (\<forall>xs ys. normalize_smartcards xs = Inr ys \<longrightarrow>
        normalize_smartcards (Text s # xs) = Inr ('''' # ys)) \<and>
     (\<exists>n1 r. normalize_smartcards (Text s # c1) = Inr n1 \<and> '''' \<in> set n1 \<and>
        compare_columns (Text s # c1) c2 = Inr r \<and>
        '''' \<in> set (common r) \<union> set (only_in_1 r))"
proof
  assume ws: "\<forall>c\<in>set s. isspace c"
  have nv: "norm_value (Text s) = Inr (Some '''')"
    using strip_whitespace [OF ws] by (simp add: norm_value_def)
  have cons: "normalize_smartcards (Text s # xs) = Inr ('''' # ys)"
    if "normalize_smartcards xs = Inr ys" for xs ys
    using normalize_smartcards_Cons [OF nv that] by simp
  obtain m1 n2 where n: "normalize_smartcards c1 = Inr m1"
    "normalize_smartcards c2 = Inr n2"
    using normalize_smartcards_returns by blast
  have n1: "normalize_smartcards (Text s # c1) = Inr ('''' # m1)"
    using cons n(1) by simp
  have cc: "compare_columns (Text s # c1) c2 = Inr (compare_sets (set ('''' # m1)) (set n2))"
    by (simp add: compare_columns_def n1 n(2))
  have "'''' \<in> set (common (compare_sets (set ('''' # m1)) (set n2)))
           \<union> set (only_in_1 (compare_sets (set ('''' # m1)) (set n2)))"
    by (simp only: compare_sets_lists [OF finite_set finite_set]) auto
  with nv cons n1 cc show "norm_value (Text s) = Inr (Some '''') \<and>
     (\<forall>xs ys. normalize_smartcards xs = Inr ys \<longrightarrow>
        normalize_smartcards (Text s # xs) = Inr ('''' # ys)) \<and>
     (\<exists>n1 r. normalize_smartcards (Text s # c1) = Inr n1 \<and> '''' \<in> set n1 \<and>
        compare_columns (Text s # c1) c2 = Inr r \<and>
        '''' \<in> set (common r) \<union> set (only_in_1 r))"
    by auto
qed

theorem whitespace_text_retained_witness:
  "isspace CHR '' '' \<and> norm_value (Text '' '') = Inr (Some '''') \<and>
   normalize_smartcards [Text '' '', IntV 7] = Inr ['''', ''7'']"
proof -
  have h: "\<forall>c\<in>set '' ''. isspace c" by (simp add: isspace_def)
  have t: "normalize_smartcards [IntV 7] = Inr [''7'']"
    by (simp add: normalize_eval float_eval)
  from whitespace_text_retained [of "'' ''" "[]" "[]"] h t
  have "norm_value (Text '' '') = Inr (Some []) \<and>
    normalize_smartcards [Text '' '', IntV 7] = Inr ([] # [''7''])"
    by blast
  then show ?thesis by (simp add: isspace_def)
qed

subsection \<open>Column guessing\<close>

lemma scan_cols_member: "scan_cols cols = Some c \<Longrightarrow> c \<in> set cols"
  by (induction cols) (auto split: if_splits)

lemma guess_sc_col_member: "guess_sc_col cols = Some c \<Longrightarrow> c \<in> set cols"
  by (auto simp: guess_sc_col_def scan_cols_member split: option.splits if_splits)





subsection \<open>The script\<close>

text \<open>
  C7: when the compare trigger is set while a file or a column selection is missing, the
  script shows the warning and runs no comparison.
\<close>

theorem missing_input_warning:
  "(run_compare st \<and>
      \<not> (df1 st \<noteq> None \<and> df2 st \<noteq> None \<and> col1_name st \<noteq> None \<and> col2_name st \<noteq> None)
      \<longrightarrow> comparison_logic st = Warning) \<and>
   (sidebar req = Inr st \<and> run_compare st \<and>
      \<not> (df1 st \<noteq> None \<and> df2 st \<noteq> None \<and> col1_name st \<noteq> None \<and> col2_name st \<noteq> None)
      \<longrightarrow> script req = Warning)"
proof -
  have "comparison_logic st = Warning"
    if "run_compare st"
      "\<not> (df1 st \<noteq> None \<and> df2 st \<noteq> None \<and> col1_name st \<noteq> None \<and> col2_name st \<noteq> None)"
  proof -
    from that(2) have "\<not> (df1 st \<noteq> None \<and> df2 st \<noteq> None \<and> truthy (col1_name st)
        \<and> truthy (col2_name st) \<and> run_compare st)"
      by (cases "col1_name st"; cases "col2_name st") auto
    then show ?thesis
      unfolding comparison_logic_def by (simp only: that(1) if_False if_True)
  qed
  then show ?thesis by (auto simp: script_def)
qed

theorem missing_input_warning_witness:
  "script \<lparr>file1 = Some \<lparr>name = ''a.xlsx'', read_csv = Inl ParseError, read_excel = Inr []\<rparr>,
           file2 = Some \<lparr>name = ''b.csv'', read_csv = Inr [(''card'', [IntV 1])],
                          read_excel = Inl ParseError\<rparr>,
           selectbox1 = None, selectbox2 = Some ''card'', button = True\<rparr> = Warning"
proof -
  let ?req = "\<lparr>file1 = Some \<lparr>name = ''a.xlsx'', read_csv = Inl ParseError, read_excel = Inr []\<rparr>,
           file2 = Some \<lparr>name = ''b.csv'', read_csv = Inr [(''card'', [IntV 1])],
                          read_excel = Inl ParseError\<rparr>,
           selectbox1 = None, selectbox2 = Some ''card'', button = True\<rparr>"
  let ?st = "\<lparr>file1_label = ''a.xlsx'', file2_label = ''b.csv'', df1 = Some [],
           df2 = Some [(''card'', [IntV 1])], col1_name = None, col2_name = Some ''card'',
           run_compare = True\<rparr>"
  have s: "sidebar ?req = Inr ?st"
    by (simp add: sidebar_def load_table_def endswith_def string_eval)
  have "run_compare ?st" by simp
  moreover have "\<not> (df1 ?st \<noteq> None \<and> df2 ?st \<noteq> None \<and> col1_name ?st \<noteq> None \<and> col2_name ?st \<noteq> None)"
    by simp
  ultimately show ?thesis
    using missing_input_warning [of ?st ?req, THEN conjunct2] s by blast
qed

text \<open>
  C10: the result depends on the values of the two chosen columns only. Two runs that
  reach the comparison with equal value sequences in their chosen columns give the same
  three lists and the same four counts, whatever the file names, the column names and the
  other columns are.
\<close>

theorem comparison_depends_on_chosen_columns:
  assumes "sidebar req = Inr st" and "sidebar req' = Inr st'"
    and "run_compare st" and "run_compare st'"
    and "df1 st = Some da" and "df2 st = Some db"
    and "df1 st' = Some da'" and "df2 st' = Some db'"
    and "col1_name st = Some ka" and "col2_name st = Some kb"
    and "col1_name st' = Some ka'" and "col2_name st' = Some kb'"
    and "ka \<noteq> []" and "kb \<noteq> []" and "ka' \<noteq> []" and "kb' \<noteq> []"
    and "getitem da ka = Inr series1" and "getitem da' ka' = Inr series1"
    and "getitem db kb = Inr series2" and "getitem db' kb' = Inr series2"
  shows "\<exists>r. compare_columns series1 series2 = Inr r \<and>
     script req = Compared r \<and> script req' = Compared r"
proof -
  obtain r where r: "compare_columns series1 series2 = Inr r"
    using compare_columns_returns by blast
  have "comparison_logic st = Compared r"
    using assms r by (simp add: comparison_logic_def)
  moreover have "comparison_logic st' = Compared r"
    using assms r by (simp add: comparison_logic_def)
  ultimately show ?thesis using assms(1,2) r by (simp add: script_def)
qed

theorem comparison_depends_on_chosen_columns_witness:
  "script \<lparr>file1 = Some \<lparr>name = ''a.xlsx'', read_csv = Inl ParseError,
                      read_excel = Inr [(''card'', [IntV 1, Text ''2 '']), (''x'', [Null, Null])]\<rparr>,
           file2 = Some \<lparr>name = ''b.csv'', read_csv = Inr [(''sc'', [IntV 2])],
                      read_excel = Inl ParseError\<rparr>,
           selectbox1 = Some ''card'', selectbox2 = Some ''sc'', button = True\<rparr>
   = script \<lparr>file1 = Some \<lparr>name = ''c.CSV'',
                      read_csv = Inr [(''y'', [IntV 9, IntV 8]), (''id'', [IntV 1, Text ''2 ''])],
                      read_excel = Inl ParseError\<rparr>,
           file2 = Some \<lparr>name = ''d.xls'', read_csv = Inl ParseError,
                      read_excel = Inr [(''n'', [IntV 2]), (''z'', [Text ''q''])]\<rparr>,
           selectbox1 = Some ''id'', selectbox2 = Some ''n'', button = True\<rparr>"
proof -
  let ?req = "\<lparr>file1 = Some \<lparr>name = ''a.xlsx'', read_csv = Inl ParseError,
                      read_excel = Inr [(''card'', [IntV 1, Text ''2 '']), (''x'', [Null, Null])]\<rparr>,
           file2 = Some \<lparr>name = ''b.csv'', read_csv = Inr [(''sc'', [IntV 2])],
                      read_excel = Inl ParseError\<rparr>,
           selectbox1 = Some ''card'', selectbox2 = Some ''sc'', button = True\<rparr>"
  let ?req' = "\<lparr>file1 = Some \<lparr>name = ''c.CSV'',
                      read_csv = Inr [(''y'', [IntV 9, IntV 8]), (''id'', [IntV 1, Text ''2 ''])],
                      read_excel = Inl ParseError\<rparr>,
           file2 = Some \<lparr>name = ''d.xls'', read_csv = Inl ParseError,
                      read_excel = Inr [(''n'', [IntV 2]), (''z'', [Text ''q''])]\<rparr>,
           selectbox1 = Some ''id'', selectbox2 = Some ''n'', button = True\<rparr>"
  let ?st = "\<lparr>file1_label = ''a.xlsx'', file2_label = ''b.csv'',
           df1 = Some [(''card'', [IntV 1, Text ''2 '']), (''x'', [Null, Null])],
           df2 = Some [(''sc'', [IntV 2])], col1_name = Some ''card'', col2_name = Some ''sc'',
           run_compare = True\<rparr>"
  let ?st' = "\<lparr>file1_label = ''c.CSV'', file2_label = ''d.xls'',
           df1 = Some [(''y'', [IntV 9, IntV 8]), (''id'', [IntV 1, Text ''2 ''])],
           df2 = Some [(''n'', [IntV 2]), (''z'', [Text ''q''])],
           col1_name = Some ''id'', col2_name = Some ''n'', run_compare = True\<rparr>"
  have s: "sidebar ?req = Inr ?st"
    by (simp add: sidebar_def load_table_def endswith_def string_eval)
  have s': "sidebar ?req' = Inr ?st'"
    by (simp add: sidebar_def load_table_def endswith_def string_eval)
  have "\<exists>r. compare_columns [IntV 1, Text ''2 ''] [IntV 2] = Inr r \<and>
     script ?req = Compared r \<and> script ?req' = Compared r"
    by (rule comparison_depends_on_chosen_columns [OF s s',
          where ka = "''card''" and kb = "''sc''" and ka' = "''id''" and kb' = "''n''"
            and da = "[(''card'', [IntV 1, Text ''2 '']), (''x'', [Null, Null])]"
            and db = "[(''sc'', [IntV 2])]"
            and da' = "[(''y'', [IntV 9, IntV 8]), (''id'', [IntV 1, Text ''2 ''])]"
            and db' = "[(''n'', [IntV 2]), (''z'', [Text ''q''])]"])
       (simp_all add: getitem_def)
  then show ?thesis by auto
qed

end
